theory Spec2Isabelle
  imports Main
begin

section \<open>Data model of \<^verbatim>\<open>backend/ai_generator.py\<close>\<close>

text \<open>
  The engine talks to two external collaborators: the LLM client
  (\<^verbatim>\<open>self.client.messages.create\<close>) and the tool dispatcher
  (\<^verbatim>\<open>tool_manager.execute_tool\<close>). Both are modelled as functions over an
  arbitrary world state \<open>'w\<close>: a call consumes the world, yields either a value or a
  raised exception, and hands back the new world. Strings are byte strings (UTF-8).
\<close>

datatype exn = IndexError string | AttributeError string | Exception string

text \<open>\<^verbatim>\<open>str(e)\<close>\<close>

fun str :: "exn \<Rightarrow> string" where
  "str (IndexError m) = m"
| "str (AttributeError m) = m"
| "str (Exception m) = m"

type_synonym tool_input = "(string \<times> string) list"

type_synonym tool_def = "(string \<times> string) list"

text \<open>
  A content block of a response. The code probes \<^verbatim>\<open>block.type\<close>; a text block has
  \<^verbatim>\<open>.text\<close>, a tool-use block has \<^verbatim>\<open>.id\<close>, \<^verbatim>\<open>.name\<close> and \<^verbatim>\<open>.input\<close> and no
  \<^verbatim>\<open>.text\<close>.
\<close>

datatype content_block =
    TextBlock string
  | ToolUseBlock string string tool_input

record response =
  stop_reason :: string
  content :: "content_block list"

text \<open>
  The dictionaries appended to \<^verbatim>\<open>tool_results\<close>. The key \<^verbatim>\<open>is_error\<close> is
  present only in the block built by the exception handler.
\<close>

record tool_result =
  tool_use_id :: string
  result_content :: string
  is_error :: "bool option"

datatype message_content =
    Text string
  | Blocks "content_block list"
  | ToolResults "tool_result list"

record message =
  role :: string
  msg_content :: message_content

datatype tool_choice = Auto

text \<open>
  The keyword dictionary passed to \<^verbatim>\<open>messages.create\<close>; a key that is absent from the
  dictionary is \<open>None\<close>. \<^verbatim>\<open>{**d, "k": v}\<close> is a record update.
\<close>

record api_params =
  model :: string
  temperature :: int
  max_tokens :: int
  system :: "string option"
  p_messages :: "message list option"
  p_tools :: "tool_def list option"
  p_tool_choice :: "tool_choice option"

type_synonym 'w llm_client = "api_params \<Rightarrow> 'w \<Rightarrow> (exn + response) \<times> 'w"

type_synonym 'w tool_manager = "string \<Rightarrow> tool_input \<Rightarrow> 'w \<Rightarrow> (exn + string) \<times> 'w"

record 'w ConversationState =
  messages :: "message list"
  system_prompt :: string
  round_count :: int
  max_rounds :: int
  tools :: "tool_def list option"
  tool_manager :: "'w tool_manager option"
  base_params :: api_params

record 'w AIGenerator =
  client :: "'w llm_client"
  self_model :: string
  self_base_params :: api_params

text \<open>
  What a run did to the outside world, in order. Each event records the value of
  \<^verbatim>\<open>state.round_count\<close> when it happened; an LLM request also records which of the three
  \<^verbatim>\<open>messages.create\<close> call sites of the source issued it.
\<close>

datatype call_site = RoundCall | RoundFinalCall | FallbackCall

datatype event =
    LLMCall call_site int api_params "exn + response"
  | ToolExec int string tool_input "exn + string"

section \<open>The engine\<close>

text \<open>
  The methods of \<^verbatim>\<open>AIGenerator\<close>, in the order of the source. A private method
  \<^verbatim>\<open>_name\<close> is the function \<open>name\<close>. A method that mutates \<^verbatim>\<open>state\<close> returns the
  new state; every function also returns the new world and the events it caused. The keys
  \<^verbatim>\<open>messages\<close>, \<^verbatim>\<open>tools\<close> and \<^verbatim>\<open>tool_choice\<close> of the request dictionary are the fields
  \<open>p_messages\<close>, \<open>p_tools\<close> and \<open>p_tool_choice\<close>, since \<^verbatim>\<open>ConversationState\<close> has fields
  of the same names.
\<close>

definition SYSTEM_PROMPT :: string where
  \<open>SYSTEM_PROMPT =
  '' You are an AI assistant specialized in course materials and educational content with access to comprehensive search tools for course information.'' @ [CHR 0x0A] @
  [CHR 0x0A] @
  ''Available Tools:'' @ [CHR 0x0A] @
  ''- **search_course_content**: Search within course materials for specific content, concepts, or technical details'' @ [CHR 0x0A] @
  ''- **get_course_outline**: Get complete course outlines including title, course link, and all lessons with numbers and titles'' @ [CHR 0x0A] @
  [CHR 0x0A] @
  ''Tool Usage Guidelines:'' @ [CHR 0x0A] @
  ''- Use search_course_content for questions about specific course content, educational materials, AND technical implementation details'' @ [CHR 0x0A] @
  ''- Use get_course_outline for questions about course structure, lesson lists, or complete course overviews'' @ [CHR 0x0A] @
  ''- **Multi-round tool usage**: You can make tool calls across up to 2 rounds to gather comprehensive information'' @ [CHR 0x0A] @
  ''- Use multiple tool calls to:'' @ [CHR 0x0A] @
  ''  - Gather complementary information from different tools'' @ [CHR 0x0A] @
  ''  - Search for specific details after getting general context'' @ [CHR 0x0A] @
  ''  - Cross-reference information from multiple sources'' @ [CHR 0x0A] @
  ''- Example: Search for course outline first, then search specific lessons for details'' @ [CHR 0x0A] @
  ''- Stop making tool calls when you have sufficient information to answer'' @ [CHR 0x0A] @
  ''- Synthesize tool results into accurate, fact-based responses'' @ [CHR 0x0A] @
  ''- If tools yield no results, state this clearly without offering alternatives'' @ [CHR 0x0A] @
  [CHR 0x0A] @
  ''Response Protocol:'' @ [CHR 0x0A] @
  ''- **General knowledge questions**: Answer using existing knowledge without using tools'' @ [CHR 0x0A] @
  ''- **Course-specific content questions**: Use search_course_content first, then answer'' @ [CHR 0x0A] @
  ''- **Course outline/structure questions**: Use get_course_outline first, then answer'' @ [CHR 0x0A] @
  ''- **Technical implementation questions**: Use search_course_content for relevant documentation or code examples'' @ [CHR 0x0A] @
  ''- **No meta-commentary**:'' @ [CHR 0x0A] @
  '' - Provide direct answers only '' @ [CHR 0xE2, CHR 0x80, CHR 0x94] @ '' no reasoning process, tool explanations, or question-type analysis'' @ [CHR 0x0A] @
  '' - Do not mention "based on the search results" or "using the outline tool"'' @ [CHR 0x0A] @
  [CHR 0x0A] @
  ''For course outline responses, always include:'' @ [CHR 0x0A] @
  ''- Course title'' @ [CHR 0x0A] @
  ''- Course link (if available)'' @ [CHR 0x0A] @
  ''- Complete lesson list with numbers and titles'' @ [CHR 0x0A] @
  [CHR 0x0A] @
  ''All responses must be:'' @ [CHR 0x0A] @
  ''1. **Brief, Concise and focused** - Get to the point quickly'' @ [CHR 0x0A] @
  ''2. **Educational** - Maintain instructional value'' @ [CHR 0x0A] @
  ''3. **Clear** - Use accessible language'' @ [CHR 0x0A] @
  ''4. **Example-supported** - Include relevant examples when they aid understanding'' @ [CHR 0x0A] @
  ''Provide only the direct answer to what was asked.'' @ [CHR 0x0A]\<close>

text \<open>\<^verbatim>\<open>AIGenerator.__init__\<close>\<close>

definition init :: "'w llm_client \<Rightarrow> string \<Rightarrow> 'w AIGenerator" where
  "init c m =
     \<lparr>client = c, self_model = m,
      self_base_params =
        \<lparr>model = m, temperature = 0, max_tokens = 800, system = None,
         p_messages = None, p_tools = None, p_tool_choice = None\<rparr>\<rparr>"

text \<open>Python truthiness of an optional list and of an optional object.\<close>

fun truthy_list :: "'a list option \<Rightarrow> bool" where
  "truthy_list None = False"
| "truthy_list (Some xs) = (xs \<noteq> [])"

fun truthy_obj :: "'a option \<Rightarrow> bool" where
  "truthy_obj None = False"
| "truthy_obj (Some x) = True"

text \<open>\<^verbatim>\<open>self.client.messages.create(**params)\<close>, issued from call site \<open>site\<close>.\<close>

definition messages_create ::
  "'w AIGenerator \<Rightarrow> call_site \<Rightarrow> int \<Rightarrow> api_params \<Rightarrow> 'w \<Rightarrow> (exn + response) \<times> 'w \<times> event list" where
  "messages_create self site rc params w =
     (case client self params w of
        (out, w') \<Rightarrow> (out, w', [LLMCall site rc params out]))"

text \<open>\<^verbatim>\<open>r.content[0].text\<close>\<close>

definition first_text :: "response \<Rightarrow> exn + string" where
  "first_text r =
     (case content r of
        [] \<Rightarrow> Inl (IndexError ''list index out of range'')
      | TextBlock t # _ \<Rightarrow> Inr t
      | ToolUseBlock i n inp # _ \<Rightarrow>
          Inl (AttributeError ([CHR 0x27] @ ''ToolUseBlock'' @ [CHR 0x27] @
            '' object has no attribute '' @ [CHR 0x27] @ ''text'' @ [CHR 0x27])))"

text \<open>
  \<^verbatim>\<open>state.tool_manager.execute_tool(name, **input)\<close>. The attribute lookup on \<^verbatim>\<open>None\<close>
  raises inside the \<^verbatim>\<open>try\<close> of the caller.
\<close>

fun execute_tool ::
  "'w tool_manager option \<Rightarrow> int \<Rightarrow> string \<Rightarrow> tool_input \<Rightarrow> 'w \<Rightarrow> (exn + string) \<times> 'w \<times> event list" where
  "execute_tool None rc n inp w =
     (Inl (AttributeError ([CHR 0x27] @ ''NoneType'' @ [CHR 0x27] @
        '' object has no attribute '' @ [CHR 0x27] @ ''execute_tool'' @ [CHR 0x27])), w, [])"
| "execute_tool (Some tm) rc n inp w =
     (case tm n inp w of (out, w') \<Rightarrow> (out, w', [ToolExec rc n inp out]))"

text \<open>
  The \<^verbatim>\<open>for content_block in response.content\<close> loop of
  \<^verbatim>\<open>_execute_tools_and_update_state\<close>, with the local list \<^verbatim>\<open>tool_results\<close> as an
  accumulator. The first component is \<open>False\<close> when the loop was left by the
  \<^verbatim>\<open>return False\<close> of the exception handler.
\<close>

fun tool_loop ::
  "'w tool_manager option \<Rightarrow> int \<Rightarrow> content_block list \<Rightarrow> tool_result list \<Rightarrow> 'w \<Rightarrow>
     bool \<times> tool_result list \<times> 'w \<times> event list" where
  "tool_loop tm rc [] tool_results w = (True, tool_results, w, [])"
| "tool_loop tm rc (TextBlock t # bs) tool_results w = tool_loop tm rc bs tool_results w"
| "tool_loop tm rc (ToolUseBlock i n inp # bs) tool_results w =
     (case execute_tool tm rc n inp w of
        (Inr res, w', ev) \<Rightarrow>
          (case tool_loop tm rc bs
                  (tool_results @ [\<lparr>tool_use_id = i, result_content = res, is_error = None\<rparr>]) w' of
             (ok, trs, w'', evs) \<Rightarrow> (ok, trs, w'', ev @ evs))
      | (Inl e, w', ev) \<Rightarrow>
          (False,
           tool_results @
             [\<lparr>tool_use_id = i, result_content = ''Tool execution failed: '' @ str e,
               is_error = Some True\<rparr>],
           w', ev))"

definition execute_tools_and_update_state ::
  "response \<Rightarrow> 'w ConversationState \<Rightarrow> 'w \<Rightarrow> bool \<times> 'w ConversationState \<times> 'w \<times> event list" where
  "execute_tools_and_update_state resp state w =
     (let state1 = state\<lparr>messages := messages state @
                      [\<lparr>role = ''assistant'', msg_content = Blocks (content resp)\<rparr>]\<rparr>
      in case tool_loop (tool_manager state1) (round_count state1) (content resp) [] w of
           (completed, tool_results, w', evs) \<Rightarrow>
             if \<not> completed then (False, state1, w', evs)
             else if tool_results \<noteq> [] then
               (True,
                state1\<lparr>messages := messages state1 @
                   [\<lparr>role = ''user'', msg_content = ToolResults tool_results\<rparr>]\<rparr>,
                w', evs)
             else (True, state1, w', evs))"

definition should_continue_rounds :: "'w ConversationState \<Rightarrow> bool \<times> string option" where
  "should_continue_rounds state =
     (if round_count state \<ge> max_rounds state - 1 then (False, Some ''max_rounds_reached'')
      else if \<not> truthy_list (tools state) \<or> \<not> truthy_obj (tool_manager state)
        then (False, Some ''no_tools_available'')
      else (True, None))"

text \<open>\<^verbatim>\<open>{**state.base_params, "messages": state.messages}\<close>\<close>

definition final_params :: "'w ConversationState \<Rightarrow> api_params" where
  "final_params state = (base_params state)\<lparr>p_messages := Some (messages state)\<rparr>"

text \<open>The parameters of the first request of a round, with the tools when both are truthy.\<close>

definition round_params :: "'w ConversationState \<Rightarrow> api_params" where
  "round_params state =
     (let api_params = (base_params state)\<lparr>p_messages := Some (messages state)\<rparr>
      in if truthy_list (tools state) \<and> truthy_obj (tool_manager state)
         then api_params\<lparr>p_tools := tools state, p_tool_choice := Some Auto\<rparr>
         else api_params)"

text \<open>
  \<^verbatim>\<open>_execute_single_round\<close>. \<open>Inl e\<close> is an exception leaving the function; \<open>Inr\<close> carries
  the returned triple (response text, should-continue, termination reason).
\<close>

definition execute_single_round ::
  "'w AIGenerator \<Rightarrow> 'w ConversationState \<Rightarrow> 'w \<Rightarrow>
     (exn + string \<times> bool \<times> string option) \<times> 'w ConversationState \<times> 'w \<times> event list" where
  "execute_single_round self state w =
     (case messages_create self RoundCall (round_count state) (round_params state) w of
        (Inl e, w1, ev1) \<Rightarrow>
          (Inr (''Error generating response: '' @ str e, False, Some ''api_error''), state, w1, ev1)
      | (Inr resp, w1, ev1) \<Rightarrow>
          if stop_reason resp = ''tool_use'' \<and> truthy_obj (tool_manager state) then
            (case execute_tools_and_update_state resp state w1 of
               (tool_success, state2, w2, ev2) \<Rightarrow>
                 if \<not> tool_success then
                   (Inr (''Tool execution failed'', False, Some ''tool_error''), state2, w2, ev1 @ ev2)
                 else
                   (case should_continue_rounds state2 of
                      (should_continue, reason) \<Rightarrow>
                        if \<not> should_continue then
                          (case messages_create self RoundFinalCall (round_count state2)
                                  (final_params state2) w2 of
                             (Inl e, w3, ev3) \<Rightarrow> (Inl e, state2, w3, ev1 @ ev2 @ ev3)
                           | (Inr final_response, w3, ev3) \<Rightarrow>
                               (case first_text final_response of
                                  Inl e \<Rightarrow> (Inl e, state2, w3, ev1 @ ev2 @ ev3)
                                | Inr t \<Rightarrow> (Inr (t, False, reason), state2, w3, ev1 @ ev2 @ ev3)))
                        else (Inr ('''', True, None), state2, w2, ev1 @ ev2)))
          else
            (case first_text resp of
               Inl e \<Rightarrow> (Inl e, state, w1, ev1)
             | Inr t \<Rightarrow> (Inr (t, False, Some ''no_tool_use''), state, w1, ev1)))"

text \<open>
  The \<^verbatim>\<open>while state.round_count < state.max_rounds\<close> loop of
  \<^verbatim>\<open>generate_response_with_rounds\<close> together with the code after it. \<open>Inl e\<close> is an
  exception leaving the function, \<open>Inr s\<close> the returned string.
\<close>

function rounds_loop ::
  "'w AIGenerator \<Rightarrow> 'w ConversationState \<Rightarrow> 'w \<Rightarrow>
     (exn + string) \<times> 'w ConversationState \<times> 'w \<times> event list" where
  "rounds_loop self state w =
     (if round_count state < max_rounds state then
        (case execute_single_round self state w of
           (Inl e, state1, w1, ev1) \<Rightarrow> (Inl e, state1, w1, ev1)
         | (Inr (response, should_continue, termination_reason), state1, w1, ev1) \<Rightarrow>
             if \<not> should_continue then (Inr response, state1, w1, ev1)
             else (case rounds_loop self (state1\<lparr>round_count := round_count state1 + 1\<rparr>) w1 of
                     (out, state2, w2, ev2) \<Rightarrow> (out, state2, w2, ev1 @ ev2)))
      else
        (case messages_create self FallbackCall (round_count state) (final_params state) w of
           (Inl e, w1, ev1) \<Rightarrow> (Inl e, state, w1, ev1)
         | (Inr final_response, w1, ev1) \<Rightarrow> (first_text final_response, state, w1, ev1)))"
  by pat_completeness auto

termination rounds_loop
proof (relation "measure (\<lambda>(self, state, w). nat (max_rounds state - round_count state))")
  show "wf (measure (\<lambda>(self, state, w). nat (max_rounds state - round_count state)))"
    by simp
next
  fix self :: "'w AIGenerator" and state :: "'w ConversationState" and w :: 'w
    and x1 x2 x1b x2b x1c x2c x1d x2d x1e x2e
  assume "round_count state < max_rounds state"
    and "(x1, x2) = execute_single_round self state w"
    and "(x1b, x2b) = x2"
  then have "execute_single_round self state w = (x1, x1b, x2b)"
    by simp
  then have "round_count x1b = round_count state \<and> max_rounds x1b = max_rounds state"
    unfolding execute_single_round_def execute_tools_and_update_state_def
    by (cases x2b) (auto simp: Let_def split: prod.splits sum.splits if_splits)
  with \<open>round_count state < max_rounds state\<close>
  show "((self, x1b\<lparr>round_count := round_count x1b + 1\<rparr>, x2c), self, state, w)
          \<in> measure (\<lambda>(self, state, w). nat (max_rounds state - round_count state))"
    by simp
qed

declare rounds_loop.simps [simp del]

definition system_content :: "string option \<Rightarrow> string" where
  "system_content conversation_history =
     (case conversation_history of
        None \<Rightarrow> SYSTEM_PROMPT
      | Some h \<Rightarrow>
          if h \<noteq> [] then
            SYSTEM_PROMPT @ [CHR 0x0A, CHR 0x0A] @ ''Previous conversation:'' @ [CHR 0x0A] @ h
          else SYSTEM_PROMPT)"

definition initial_state ::
  "'w AIGenerator \<Rightarrow> string \<Rightarrow> string option \<Rightarrow> tool_def list option \<Rightarrow>
     'w tool_manager option \<Rightarrow> int \<Rightarrow> 'w ConversationState" where
  "initial_state self query conversation_history tls tm mr =
     \<lparr>messages = [\<lparr>role = ''user'', msg_content = Text query\<rparr>],
      system_prompt = system_content conversation_history,
      round_count = 0,
      max_rounds = mr,
      tools = tls,
      tool_manager = tm,
      base_params = (self_base_params self)\<lparr>system := Some (system_content conversation_history)\<rparr>\<rparr>"

definition generate_response_with_rounds ::
  "'w AIGenerator \<Rightarrow> string \<Rightarrow> string option \<Rightarrow> tool_def list option \<Rightarrow>
     'w tool_manager option \<Rightarrow> int \<Rightarrow> 'w \<Rightarrow> (exn + string) \<times> 'w \<times> event list" where
  "generate_response_with_rounds self query conversation_history tls tm mr w =
     (case rounds_loop self (initial_state self query conversation_history tls tm mr) w of
        (out, state', w', evs) \<Rightarrow> (out, w', evs))"

definition generate_response ::
  "'w AIGenerator \<Rightarrow> string \<Rightarrow> string option \<Rightarrow> tool_def list option \<Rightarrow>
     'w tool_manager option \<Rightarrow> 'w \<Rightarrow> (exn + string) \<times> 'w \<times> event list" where
  "generate_response self query conversation_history tls tm w =
     generate_response_with_rounds self query conversation_history tls tm 2 w"

section \<open>Reading a run\<close>

text \<open>The call sites of the LLM requests of a trace, and the requests themselves, in order.\<close>

fun call_sites :: "event list \<Rightarrow> call_site list" where
  "call_sites [] = []"
| "call_sites (LLMCall s r p out # evs) = s # call_sites evs"
| "call_sites (ToolExec r n i out # evs) = call_sites evs"

fun llm_requests :: "event list \<Rightarrow> api_params list" where
  "llm_requests [] = []"
| "llm_requests (LLMCall s r p out # evs) = p # llm_requests evs"
| "llm_requests (ToolExec r n i out # evs) = llm_requests evs"




text \<open>
  The first \<open>n\<close> iterations of the \<^verbatim>\<open>while\<close> loop of
  \<^verbatim>\<open>generate_response_with_rounds\<close>, when each of them ends with
  \<^verbatim>\<open>state.round_count += 1\<close>: the state and the world at the start of iteration \<open>n + 1\<close>
  and the events so far. \<open>None\<close> when the loop is left earlier.
\<close>

fun run_rounds ::
  "'w AIGenerator \<Rightarrow> 'w ConversationState \<Rightarrow> 'w \<Rightarrow> nat \<Rightarrow>
     ('w ConversationState \<times> 'w \<times> event list) option" where
  "run_rounds self state w 0 = Some (state, w, [])"
| "run_rounds self state w (Suc n) =
     (if round_count state < max_rounds state then
        (case execute_single_round self state w of
           (Inl e, state1, w1, ev1) \<Rightarrow> None
         | (Inr (response, should_continue, termination_reason), state1, w1, ev1) \<Rightarrow>
             if \<not> should_continue then None
             else (case run_rounds self (state1\<lparr>round_count := round_count state1 + 1\<rparr>) w1 n of
                     None \<Rightarrow> None
                   | Some (state2, w2, ev2) \<Rightarrow> Some (state2, w2, ev1 @ ev2)))
      else None)"

section \<open>Concrete collaborators\<close>

text \<open>
  A client that answers its \<open>k\<close>-th request with the \<open>k\<close>-th entry of a script (the world
  is the number of requests served so far), a dispatcher that always succeeds and one that
  always raises, as the mocks of \<^verbatim>\<open>tests/test_ai_generator.py\<close> do.
\<close>

definition scripted_client :: "(exn + response) list \<Rightarrow> nat llm_client" where
  "scripted_client script p k =
     (if k < length script then script ! k else Inl (Exception ''no more responses''), Suc k)"

definition echo_tool :: "nat tool_manager" where
  "echo_tool n inp k = (Inr (''result of '' @ n), k)"

definition failing_tool :: "nat tool_manager" where
  "failing_tool n inp k = (Inl (Exception ''Tool failed''), k)"

definition search_tools :: "tool_def list" where
  "search_tools = [[(''name'', ''search_course_content'')]]"

definition tool_use_response :: response where
  "tool_use_response =
     \<lparr>stop_reason = ''tool_use'',
      content = [ToolUseBlock ''tool_1'' ''search_course_content'' [(''query'', ''test'')]]\<rparr>"

definition text_response :: "string \<Rightarrow> response" where
  "text_response t = \<lparr>stop_reason = ''end_turn'', content = [TextBlock t]\<rparr>"

text \<open>A response that ends the turn with no content block at all.\<close>

definition empty_response :: response where
  "empty_response = \<lparr>stop_reason = ''end_turn'', content = []\<rparr>"

text \<open>The request of the first round of the query \<open>q\<close> with the search tool offered.\<close>

definition first_request :: "string \<Rightarrow> api_params" where
  "first_request h =
     \<lparr>model = ''m'', temperature = 0, max_tokens = 800, system = Some h,
      p_messages = Some [\<lparr>role = ''user'', msg_content = Text ''q''\<rparr>],
      p_tools = Some search_tools, p_tool_choice = Some Auto\<rparr>"

text \<open>The two messages a successful round with \<open>tool_use_response\<close> appends.\<close>

definition round_messages :: "message list" where
  "round_messages =
     [\<lparr>role = ''assistant'', msg_content = Blocks (content tool_use_response)\<rparr>,
      \<lparr>role = ''user'', msg_content = ToolResults
         [\<lparr>tool_use_id = ''tool_1'', result_content = ''result of search_course_content'',
           is_error = None\<rparr>]\<rparr>]"

definition gen :: "(exn + response) list \<Rightarrow> nat AIGenerator" where
  "gen script = init (scripted_client script) ''m''"

text \<open>
  The trace of a query whose two rounds both request the search tool: three requests, the
  last one without tools. And the trace of a query whose first tool call raises.
\<close>

definition two_round_trace :: "event list" where
  "two_round_trace =
     [LLMCall RoundCall 0 (first_request SYSTEM_PROMPT) (Inr tool_use_response),
      ToolExec 0 ''search_course_content'' [(''query'', ''test'')]
        (Inr ''result of search_course_content''),
      LLMCall RoundCall 1
        ((first_request SYSTEM_PROMPT)
           \<lparr>p_messages := Some (\<lparr>role = ''user'', msg_content = Text ''q''\<rparr> # round_messages)\<rparr>)
        (Inr tool_use_response),
      ToolExec 1 ''search_course_content'' [(''query'', ''test'')]
        (Inr ''result of search_course_content''),
      LLMCall RoundFinalCall 1
        ((first_request SYSTEM_PROMPT)
           \<lparr>p_messages := Some (\<lparr>role = ''user'', msg_content = Text ''q''\<rparr> #
                                  round_messages @ round_messages),
            p_tools := None, p_tool_choice := None\<rparr>)
        (Inr (text_response ''final''))]"

definition failure_trace :: "event list" where
  "failure_trace =
     [LLMCall RoundCall 0 (first_request SYSTEM_PROMPT) (Inr tool_use_response),
      ToolExec 0 ''search_course_content'' [(''query'', ''test'')] (Inl (Exception ''Tool failed''))]"

section \<open>Facts about one round\<close>

lemma tool_exec_keeps_counters:
  "execute_tools_and_update_state resp state w = (ok, state', w', evs) \<Longrightarrow>
     round_count state' = round_count state \<and> max_rounds state' = max_rounds state"
  by (auto simp: execute_tools_and_update_state_def Let_def split: prod.splits if_splits)

lemma single_round_keeps_counters:
  "execute_single_round self state w = (out, state', w', evs) \<Longrightarrow>
     round_count state' = round_count state \<and> max_rounds state' = max_rounds state"
  unfolding execute_single_round_def
  by (auto split: prod.splits sum.splits if_splits dest: tool_exec_keeps_counters)


lemma call_sites_append [simp]: "call_sites (xs @ ys) = call_sites xs @ call_sites ys"
  by (induction xs rule: call_sites.induct) auto

lemma llm_requests_append [simp]: "llm_requests (xs @ ys) = llm_requests xs @ llm_requests ys"
  by (induction xs rule: llm_requests.induct) auto



lemma length_llm_requests: "length (llm_requests evs) = length (call_sites evs)"
  by (induction evs rule: call_sites.induct) auto

lemma tool_loop_failure_last:
  "tool_loop tm rc bs trs w = (ok, trs', w', evs) \<Longrightarrow> ToolExec r n i (Inl e) \<in> set evs \<Longrightarrow>
     \<not> ok \<and> r = rc \<and> (\<exists>pre. evs = pre @ [ToolExec rc n i (Inl e)])"
proof (induction bs arbitrary: trs w ok trs' w' evs)
  case Nil
  then show ?case by simp
next
  case (Cons b bs)
  show ?case
  proof (cases b)
    case (TextBlock t)
    with Cons.prems have "tool_loop tm rc bs trs w = (ok, trs', w', evs)" by simp
    from Cons.IH[OF this Cons.prems(2)] show ?thesis .
  next
    case (ToolUseBlock i' n' inp)
    show ?thesis
    proof (cases tm)
      case None
      with Cons.prems ToolUseBlock show ?thesis by simp
    next
      case (Some f)
      obtain out w1 where f: "f n' inp w = (out, w1)" by (cases "f n' inp w")
      show ?thesis
      proof (cases out)
        case (Inl e')
        with Cons.prems ToolUseBlock Some f show ?thesis by auto
      next
        case (Inr res)
        obtain ok2 trs2 w2 evs2 where
          rec: "tool_loop tm rc bs (trs @ [\<lparr>tool_use_id = i', result_content = res, is_error = None\<rparr>]) w1
                  = (ok2, trs2, w2, evs2)" by (metis prod_cases4)
        from Cons.prems(1) ToolUseBlock Some f Inr rec
        have eq: "ok = ok2" "evs = ToolExec rc n' inp (Inr res) # evs2" by auto
        with Cons.prems(2) have "ToolExec r n i (Inl e) \<in> set evs2" by auto
        from Cons.IH[OF rec this] eq show ?thesis by auto
      qed
    qed
  qed
qed

lemma tool_loop_call_sites:
  "tool_loop tm rc bs trs w = (ok, trs', w', evs) \<Longrightarrow> call_sites evs = [] \<and> llm_requests evs = []"
proof (induction bs arbitrary: trs w ok trs' w' evs)
  case Nil
  then show ?case by simp
next
  case (Cons b bs)
  show ?case
  proof (cases b)
    case (TextBlock t)
    with Cons.prems have "tool_loop tm rc bs trs w = (ok, trs', w', evs)" by simp
    from Cons.IH[OF this] show ?thesis .
  next
    case (ToolUseBlock i n inp)
    with Cons show ?thesis
      by (cases tm) (auto split: prod.splits sum.splits)
  qed
qed

lemma exec_tools_frame:
  "execute_tools_and_update_state resp state w = (ok, state', w', evs) \<Longrightarrow>
     base_params state' = base_params state \<and> tools state' = tools state \<and>
     tool_manager state' = tool_manager state"
  by (auto simp: execute_tools_and_update_state_def Let_def split: prod.splits if_splits)

lemma exec_tools_call_sites:
  "execute_tools_and_update_state resp state w = (ok, state', w', evs) \<Longrightarrow>
     call_sites evs = [] \<and> llm_requests evs = []"
  by (auto simp: execute_tools_and_update_state_def Let_def split: prod.splits if_splits
           dest: tool_loop_call_sites)

lemma exec_tools_failure_last:
  "execute_tools_and_update_state resp state w = (ok, state', w', evs) \<Longrightarrow>
   ToolExec r n i (Inl e) \<in> set evs \<Longrightarrow>
     \<not> ok \<and> r = round_count state \<and> (\<exists>pre. evs = pre @ [ToolExec r n i (Inl e)])"
  by (auto simp: execute_tools_and_update_state_def Let_def split: prod.splits if_splits
           dest: tool_loop_failure_last)

text \<open>The five ways a round can end.\<close>

lemma single_round_cases:
  assumes "execute_single_round self state w = (out, state', w', evs)"
  obtains
    (api_error) e where
      "client self (round_params state) w = (Inl e, w')"
      "out = Inr (''Error generating response: '' @ str e, False, Some ''api_error'')"
      "state' = state"
      "evs = [LLMCall RoundCall (round_count state) (round_params state) (Inl e)]"
  | (no_tool_use) resp where
      "client self (round_params state) w = (Inr resp, w')"
      "\<not> (stop_reason resp = ''tool_use'' \<and> truthy_obj (tool_manager state))"
      "out = (case first_text resp of Inl e \<Rightarrow> Inl e
              | Inr t \<Rightarrow> Inr (t, False, Some ''no_tool_use''))"
      "state' = state"
      "evs = [LLMCall RoundCall (round_count state) (round_params state) (Inr resp)]"
  | (tool_error) resp w1 tevs where
      "client self (round_params state) w = (Inr resp, w1)"
      "stop_reason resp = ''tool_use''" "truthy_obj (tool_manager state)"
      "execute_tools_and_update_state resp state w1 = (False, state', w', tevs)"
      "out = Inr (''Tool execution failed'', False, Some ''tool_error'')"
      "evs = LLMCall RoundCall (round_count state) (round_params state) (Inr resp) # tevs"
  | (final_call) resp w1 w2 tevs fo where
      "client self (round_params state) w = (Inr resp, w1)"
      "stop_reason resp = ''tool_use''" "truthy_obj (tool_manager state)"
      "execute_tools_and_update_state resp state w1 = (True, state', w2, tevs)"
      "\<not> fst (should_continue_rounds state')"
      "client self (final_params state') w2 = (fo, w')"
      "out = (case fo of Inl e \<Rightarrow> Inl e
              | Inr fr \<Rightarrow> (case first_text fr of Inl e \<Rightarrow> Inl e
                           | Inr t \<Rightarrow> Inr (t, False, snd (should_continue_rounds state'))))"
      "evs = LLMCall RoundCall (round_count state) (round_params state) (Inr resp) # tevs @
               [LLMCall RoundFinalCall (round_count state') (final_params state') fo]"
  | (continue) resp w1 tevs where
      "client self (round_params state) w = (Inr resp, w1)"
      "stop_reason resp = ''tool_use''" "truthy_obj (tool_manager state)"
      "execute_tools_and_update_state resp state w1 = (True, state', w', tevs)"
      "fst (should_continue_rounds state')"
      "out = Inr ('''', True, None)"
      "evs = LLMCall RoundCall (round_count state) (round_params state) (Inr resp) # tevs"
proof -
  obtain o1 w1 where c1: "client self (round_params state) w = (o1, w1)"
    by (cases "client self (round_params state) w")
  show thesis
  proof (cases o1)
    case (Inl e)
    with assms c1 show thesis
      by (intro api_error[of e]) (auto simp: execute_single_round_def messages_create_def)
  next
    case (Inr resp)
    show thesis
    proof (cases "stop_reason resp = ''tool_use'' \<and> truthy_obj (tool_manager state)")
      case False
      with assms c1 Inr show thesis
        by (intro no_tool_use[of resp])
           (auto simp: execute_single_round_def messages_create_def split: sum.splits)
    next
      case tu: True
      obtain ok st2 w2 tevs where
        t: "execute_tools_and_update_state resp state w1 = (ok, st2, w2, tevs)"
        by (metis prod_cases4)
      show thesis
      proof (cases ok)
        case False
        with assms c1 Inr tu t
        have "state' = st2" "w' = w2"
          "out = Inr (''Tool execution failed'', False, Some ''tool_error'')"
          "evs = LLMCall RoundCall (round_count state) (round_params state) (Inr resp) # tevs"
          by (auto simp: execute_single_round_def messages_create_def)
        with c1 Inr tu t False show thesis
          by (intro tool_error[of resp w1 tevs]) auto
      next
        case ok: True
        obtain sc reason where s: "should_continue_rounds st2 = (sc, reason)"
          by (cases "should_continue_rounds st2")
        show thesis
        proof (cases sc)
          case True
          with assms c1 Inr tu t ok s
          have "state' = st2" "w' = w2" "out = Inr ('''', True, None)"
            "evs = LLMCall RoundCall (round_count state) (round_params state) (Inr resp) # tevs"
            by (auto simp: execute_single_round_def messages_create_def)
          with c1 Inr tu t ok s True show thesis
            by (intro continue[of resp w1 tevs]) auto
        next
          case False
          obtain fo w3 where c2: "client self (final_params st2) w2 = (fo, w3)"
            by (cases "client self (final_params st2) w2")
          with assms c1 Inr tu t ok s False
          have "state' = st2" "w' = w3"
            "out = (case fo of Inl e \<Rightarrow> Inl e
              | Inr fr \<Rightarrow> (case first_text fr of Inl e \<Rightarrow> Inl e
                           | Inr t \<Rightarrow> Inr (t, False, snd (should_continue_rounds st2))))"
            "evs = LLMCall RoundCall (round_count state) (round_params state) (Inr resp) # tevs @
               [LLMCall RoundFinalCall (round_count st2) (final_params st2) fo]"
            by (auto simp: execute_single_round_def messages_create_def split: sum.splits)
          with c1 Inr tu t ok s False c2 show thesis
            by (intro final_call[of resp w1 w2 tevs fo]) auto
        qed
      qed
    qed
  qed
qed


lemma single_round_sites:
  assumes "execute_single_round self state w = (out, state', w', evs)"
  shows "call_sites evs = [RoundCall] \<or> call_sites evs = [RoundCall, RoundFinalCall]"
  using assms
  by (cases rule: single_round_cases) (auto dest: exec_tools_call_sites)

lemma single_round_continue:
  assumes "execute_single_round self state w = (Inr (t, True, reason), state', w', evs)"
  shows "call_sites evs = [RoundCall] \<and> round_count state + 1 < max_rounds state \<and>
         (\<forall>r n i e. ToolExec r n i (Inl e) \<notin> set evs)"
  using assms
proof (cases rule: single_round_cases)
  case (continue resp w1 tevs)
  from continue(4) have "round_count state' = round_count state" "max_rounds state' = max_rounds state"
    by (auto dest: tool_exec_keeps_counters)
  with continue(5) have "round_count state + 1 < max_rounds state"
    by (auto simp: should_continue_rounds_def split: if_splits)
  moreover from continue(4) have "call_sites tevs = []" by (auto dest: exec_tools_call_sites)
  moreover from continue(4) have "\<forall>r n i e. ToolExec r n i (Inl e) \<notin> set tevs"
    by (auto dest: exec_tools_failure_last)
  ultimately show ?thesis using continue(7) by auto
qed (auto split: sum.splits)

lemma single_round_tool_failure:
  assumes "execute_single_round self state w = (out, state', w', evs)"
    and "ToolExec r n i (Inl e) \<in> set evs"
  shows "r = round_count state \<and> out = Inr (''Tool execution failed'', False, Some ''tool_error'') \<and>
     (\<exists>pre. evs = pre @ [ToolExec r n i (Inl e)] \<and> call_sites pre = [RoundCall])"
  using assms(1)
proof (cases rule: single_round_cases)
  case (api_error e)
  with assms(2) show ?thesis by simp
next
  case (no_tool_use resp)
  with assms(2) show ?thesis by simp
next
  case (tool_error resp w1 tevs)
  with assms(2) have m: "ToolExec r n i (Inl e) \<in> set tevs" by simp
  from exec_tools_failure_last[OF tool_error(4) m]
  obtain pre where "r = round_count state" "tevs = pre @ [ToolExec r n i (Inl e)]" by blast
  moreover from exec_tools_call_sites[OF tool_error(4)] have "call_sites tevs = []" by simp
  ultimately show ?thesis using tool_error(5,6)
    by (intro conjI exI[of _ "LLMCall RoundCall (round_count state) (round_params state) (Inr resp) # pre"])
       auto
next
  case (final_call resp w1 w2 tevs fo)
  with assms(2) have m: "ToolExec r n i (Inl e) \<in> set tevs" by simp
  from exec_tools_failure_last[OF final_call(4) m] show ?thesis by simp
next
  case (continue resp w1 tevs)
  with assms(2) have m: "ToolExec r n i (Inl e) \<in> set tevs" by simp
  from exec_tools_failure_last[OF continue(4) m] show ?thesis by simp
qed

lemma single_round_system:
  assumes "execute_single_round self state w = (out, state', w', evs)"
  shows "base_params state' = base_params state \<and>
         (\<forall>p \<in> set (llm_requests evs). system p = system (base_params state))"
proof -
  have rp: "system (round_params state) = system (base_params state)"
    by (simp add: round_params_def Let_def)
  have fin: "\<And>s::'a ConversationState. system (final_params s) = system (base_params s)"
    by (simp add: final_params_def)
  from assms show ?thesis
  proof (cases rule: single_round_cases)
    case (tool_error resp w1 tevs)
    from exec_tools_frame[OF tool_error(4)] have "base_params state' = base_params state"
      by simp
    with tool_error rp exec_tools_call_sites[OF tool_error(4)] show ?thesis by simp
  next
    case (final_call resp w1 w2 tevs fo)
    from exec_tools_frame[OF final_call(4)] have "base_params state' = base_params state"
      by simp
    with final_call rp fin[of state'] exec_tools_call_sites[OF final_call(4)] show ?thesis by simp
  next
    case (continue resp w1 tevs)
    from exec_tools_frame[OF continue(4)] have "base_params state' = base_params state"
      by simp
    with continue rp exec_tools_call_sites[OF continue(4)] show ?thesis by simp
  qed (auto simp: rp)
qed


section \<open>Facts about the round loop\<close>


lemma rounds_loop_fallback:
  "\<not> round_count state < max_rounds state \<Longrightarrow>
     rounds_loop self state w =
       (case messages_create self FallbackCall (round_count state) (final_params state) w of
          (Inl e, w1, ev1) \<Rightarrow> (Inl e, state, w1, ev1)
        | (Inr final_response, w1, ev1) \<Rightarrow> (first_text final_response, state, w1, ev1))"
  by (subst rounds_loop.simps) simp

lemma rounds_loop_raise:
  "round_count state < max_rounds state \<Longrightarrow>
   execute_single_round self state w = (Inl e, st1, w1, ev1) \<Longrightarrow>
     rounds_loop self state w = (Inl e, st1, w1, ev1)"
  by (subst rounds_loop.simps) simp

lemma rounds_loop_stop:
  "round_count state < max_rounds state \<Longrightarrow>
   execute_single_round self state w = (Inr (t, False, reason), st1, w1, ev1) \<Longrightarrow>
     rounds_loop self state w = (Inr t, st1, w1, ev1)"
  by (subst rounds_loop.simps) simp

lemma rounds_loop_continue:
  "round_count state < max_rounds state \<Longrightarrow>
   execute_single_round self state w = (Inr (t, True, reason), st1, w1, ev1) \<Longrightarrow>
     rounds_loop self state w =
       (case rounds_loop self (st1\<lparr>round_count := round_count st1 + 1\<rparr>) w1 of
          (out, st2, w2, ev2) \<Rightarrow> (out, st2, w2, ev1 @ ev2))"
  by (subst rounds_loop.simps) simp

lemma rounds_loop_cases_induct [consumes 0, case_names fallback raise stop continue]:
  assumes "\<And>self state w. \<not> round_count state < max_rounds state \<Longrightarrow> P self state w"
    and "\<And>self state w e st1 w1 ev1.
           round_count state < max_rounds state \<Longrightarrow>
           execute_single_round self state w = (Inl e, st1, w1, ev1) \<Longrightarrow> P self state w"
    and "\<And>self state w t reason st1 w1 ev1.
           round_count state < max_rounds state \<Longrightarrow>
           execute_single_round self state w = (Inr (t, False, reason), st1, w1, ev1) \<Longrightarrow>
           P self state w"
    and "\<And>self state w t reason st1 w1 ev1.
           round_count state < max_rounds state \<Longrightarrow>
           execute_single_round self state w = (Inr (t, True, reason), st1, w1, ev1) \<Longrightarrow>
           P self (st1\<lparr>round_count := round_count st1 + 1\<rparr>) w1 \<Longrightarrow> P self state w"
  shows "P self state w"
proof (induction self state w rule: rounds_loop.induct)
  case (1 self state w)
  show ?case
  proof (cases "round_count state < max_rounds state")
    case False
    then show ?thesis by (rule assms(1))
  next
    case True
    obtain r st1 w1 ev1 where round: "execute_single_round self state w = (r, st1, w1, ev1)"
      by (metis prod_cases4)
    show ?thesis
    proof (cases r)
      case (Inl e)
      with True round show ?thesis by (auto intro: assms(2))
    next
      case (Inr triple)
      obtain t cont reason where triple: "triple = (t, cont, reason)" by (cases triple)
      show ?thesis
      proof (cases cont)
        case False
        with True round Inr triple show ?thesis by (auto intro: assms(3))
      next
        case cont: True
        have "P self (st1\<lparr>round_count := round_count st1 + 1\<rparr>) w1"
          using "1.IH"[OF True round[symmetric] Inr triple[symmetric] refl refl refl] cont
          by simp
        with True round Inr triple cont show ?thesis by (auto intro: assms(4))
      qed
    qed
  qed
qed
lemma fallback_events:
  "\<not> round_count state < max_rounds state \<Longrightarrow> rounds_loop self state w = (out, st', w', evs) \<Longrightarrow>
     \<exists>fo. evs = [LLMCall FallbackCall (round_count state) (final_params state) fo] \<and> st' = state"
  by (auto simp: rounds_loop_fallback messages_create_def split: prod.splits sum.splits)

lemma rounds_loop_call_bound:
  "rounds_loop self state w = (out, st', w', evs) \<Longrightarrow>
     int (length (call_sites evs)) \<le> max (max_rounds state - round_count state) 0 + 1"
proof (induction self state w arbitrary: out st' w' evs rule: rounds_loop_cases_induct)
  case (fallback self state w)
  from fallback_events[OF fallback(1,2)] show ?case by auto
next
  case (raise self state w e st1 w1 ev1)
  from rounds_loop_raise[OF raise(1,2)] raise(3) have "evs = ev1" by simp
  with single_round_sites[OF raise(2)] raise(1) show ?case by auto
next
  case (stop self state w t reason st1 w1 ev1)
  from rounds_loop_stop[OF stop(1,2)] stop(3) have "evs = ev1" by simp
  with single_round_sites[OF stop(2)] stop(1) show ?case by auto
next
  case (continue self state w t reason st1 w1 ev1)
  obtain out2 st2 w2 ev2 where
    rec: "rounds_loop self (st1\<lparr>round_count := round_count st1 + 1\<rparr>) w1 = (out2, st2, w2, ev2)"
    by (metis prod_cases4)
  from rounds_loop_continue[OF continue(1,2)] continue(4) rec have evs: "evs = ev1 @ ev2" by simp
  from single_round_keeps_counters[OF continue(2)]
  have k: "round_count st1 = round_count state" "max_rounds st1 = max_rounds state" by simp_all
  from single_round_continue[OF continue(2)]
  have one: "call_sites ev1 = [RoundCall]" and lt: "round_count state + 1 < max_rounds state"
    by simp_all
  from continue(3)[OF rec] k
  have "int (length (call_sites ev2)) \<le> max (max_rounds state - (round_count state + 1)) 0 + 1"
    by simp
  with evs one lt show ?case by simp
qed


lemma rounds_loop_tool_failure:
  "rounds_loop self state w = (out, st', w', evs) \<Longrightarrow> ToolExec r n i (Inl e) \<in> set evs \<Longrightarrow>
     round_count state \<le> r \<and> out = Inr ''Tool execution failed'' \<and>
     (\<exists>pre. evs = pre @ [ToolExec r n i (Inl e)] \<and>
            call_sites pre = replicate (nat (r - round_count state + 1)) RoundCall)"
proof (induction self state w arbitrary: out st' w' evs rule: rounds_loop_cases_induct)
  case (fallback self state w)
  from fallback_events[OF fallback(1,2)] fallback(3) show ?case by auto
next
  case (raise self state w e' st1 w1 ev1)
  from rounds_loop_raise[OF raise(1,2)] raise(3) have "evs = ev1" "out = Inl e'" by simp_all
  with single_round_tool_failure[OF raise(2), of r n i e] raise(4) show ?case by simp
next
  case (stop self state w t reason st1 w1 ev1)
  from rounds_loop_stop[OF stop(1,2)] stop(3) have "evs = ev1" "out = Inr t" by simp_all
  with single_round_tool_failure[OF stop(2), of r n i e] stop(4) show ?case by auto
next
  case (continue self state w t reason st1 w1 ev1)
  obtain out2 st2 w2 ev2 where
    rec: "rounds_loop self (st1\<lparr>round_count := round_count st1 + 1\<rparr>) w1 = (out2, st2, w2, ev2)"
    by (metis prod_cases4)
  from rounds_loop_continue[OF continue(1,2)] continue(4) rec
  have evs: "evs = ev1 @ ev2" and out: "out = out2" by simp_all
  from single_round_keeps_counters[OF continue(2)]
  have k: "round_count st1 = round_count state" by simp
  from single_round_continue[OF continue(2)]
  have one: "call_sites ev1 = [RoundCall]" and nofail: "ToolExec r n i (Inl e) \<notin> set ev1"
    by simp_all
  with evs continue(5) have "ToolExec r n i (Inl e) \<in> set ev2" by simp
  from continue(3)[OF rec this] k
  obtain pre where le: "round_count state + 1 \<le> r" and o2: "out2 = Inr ''Tool execution failed''"
    and pre: "ev2 = pre @ [ToolExec r n i (Inl e)]"
      "call_sites pre = replicate (nat (r - (round_count state + 1) + 1)) RoundCall"
    by auto
  have "nat (r - round_count state + 1) = Suc (nat (r - (round_count state + 1) + 1))"
    using le by simp
  with pre one evs have "evs = (ev1 @ pre) @ [ToolExec r n i (Inl e)] \<and>
     call_sites (ev1 @ pre) = replicate (nat (r - round_count state + 1)) RoundCall"
    by simp
  with le o2 out show ?case by (intro conjI exI[of _ "ev1 @ pre"]) simp_all
qed

lemma rounds_loop_system:
  "rounds_loop self state w = (out, st', w', evs) \<Longrightarrow>
     \<forall>p \<in> set (llm_requests evs). system p = system (base_params state)"
proof (induction self state w arbitrary: out st' w' evs rule: rounds_loop_cases_induct)
  case (fallback self state w)
  from fallback_events[OF fallback(1,2)] show ?case by (auto simp: final_params_def)
next
  case (raise self state w e' st1 w1 ev1)
  from rounds_loop_raise[OF raise(1,2)] raise(3) have "evs = ev1" by simp
  with single_round_system[OF raise(2)] show ?case by simp
next
  case (stop self state w t reason st1 w1 ev1)
  from rounds_loop_stop[OF stop(1,2)] stop(3) have "evs = ev1" by simp
  with single_round_system[OF stop(2)] show ?case by simp
next
  case (continue self state w t reason st1 w1 ev1)
  obtain out2 st2 w2 ev2 where
    rec: "rounds_loop self (st1\<lparr>round_count := round_count st1 + 1\<rparr>) w1 = (out2, st2, w2, ev2)"
    by (metis prod_cases4)
  from rounds_loop_continue[OF continue(1,2)] continue(4) rec
  have evs: "evs = ev1 @ ev2" by simp
  from continue(3)[OF rec] single_round_system[OF continue(2)] evs show ?case by auto
qed

lemma rounds_loop_no_fallback:
  "round_count state < max_rounds state \<Longrightarrow> rounds_loop self state w = (out, st', w', evs) \<Longrightarrow>
     FallbackCall \<notin> set (call_sites evs) \<and> round_count st' < max_rounds st' \<and>
     max_rounds st' = max_rounds state"
proof (induction self state w arbitrary: out st' w' evs rule: rounds_loop_cases_induct)
  case (fallback self state w)
  then show ?case by simp
next
  case (raise self state w e' st1 w1 ev1)
  from rounds_loop_raise[OF raise(1,2)] raise(4) have "evs = ev1" "st' = st1" by simp_all
  with single_round_sites[OF raise(2)] single_round_keeps_counters[OF raise(2)] raise(1)
  show ?case by auto
next
  case (stop self state w t reason st1 w1 ev1)
  from rounds_loop_stop[OF stop(1,2)] stop(4) have "evs = ev1" "st' = st1" by simp_all
  with single_round_sites[OF stop(2)] single_round_keeps_counters[OF stop(2)] stop(1)
  show ?case by auto
next
  case (continue self state w t reason st1 w1 ev1)
  obtain out2 st2 w2 ev2 where
    rec: "rounds_loop self (st1\<lparr>round_count := round_count st1 + 1\<rparr>) w1 = (out2, st2, w2, ev2)"
    by (metis prod_cases4)
  from rounds_loop_continue[OF continue(1,2)] continue(5) rec
  have evs: "evs = ev1 @ ev2" "st' = st2" by simp_all
  from single_round_keeps_counters[OF continue(2)]
  have k: "round_count st1 = round_count state" "max_rounds st1 = max_rounds state" by simp_all
  from single_round_continue[OF continue(2)]
  have one: "call_sites ev1 = [RoundCall]" and lt: "round_count state + 1 < max_rounds state"
    by simp_all
  from continue(3)[OF _ rec] k lt
  have "FallbackCall \<notin> set (call_sites ev2) \<and> round_count st2 < max_rounds st2 \<and>
        max_rounds st2 = max_rounds state" by simp
  with evs one show ?case by simp
qed

lemma rounds_loop_prefix:
  assumes "round_count state < max_rounds state"
    and "execute_single_round self state w = (ro, st1, w1, ev1)"
    and "rounds_loop self state w = (out, st', w', evs)"
  shows "\<exists>ev2. evs = ev1 @ ev2"
proof (cases ro)
  case (Inl e)
  with rounds_loop_raise[OF assms(1)] assms(2,3) show ?thesis by simp
next
  case (Inr triple)
  obtain t cont reason where triple: "triple = (t, cont, reason)" by (cases triple)
  show ?thesis
  proof (cases cont)
    case False
    with rounds_loop_stop[OF assms(1)] assms(2,3) Inr triple show ?thesis by simp
  next
    case True
    obtain out2 st2 w2 ev2 where
      "rounds_loop self (st1\<lparr>round_count := round_count st1 + 1\<rparr>) w1 = (out2, st2, w2, ev2)"
      by (metis prod_cases4)
    with rounds_loop_continue[OF assms(1)] assms(2,3) Inr triple True show ?thesis by auto
  qed
qed

lemma rounds_loop_first_response:
  assumes "rounds_loop self state w = (out, st', w', evs)"
    and "evs = LLMCall s r p (Inr resp) # rest"
    and "stop_reason resp \<noteq> ''tool_use''"
  shows "rest = [] \<and> out = first_text resp"
proof (cases "round_count state < max_rounds state")
  case False
  with assms show ?thesis
    by (auto simp: rounds_loop_fallback messages_create_def split: prod.splits sum.splits)
next
  case True
  obtain ro st1 w1 ev1 where round: "execute_single_round self state w = (ro, st1, w1, ev1)"
    by (metis prod_cases4)
  from rounds_loop_prefix[OF True round assms(1)] obtain ev2 where pre: "evs = ev1 @ ev2" ..
  from round show ?thesis
  proof (cases rule: single_round_cases)
    case (api_error e)
    with pre assms(2) show ?thesis by simp
  next
    case (no_tool_use resp')
    with pre assms(2) have same: "resp' = resp" by simp
    show ?thesis
    proof (cases "first_text resp'")
      case (Inl e)
      with no_tool_use rounds_loop_raise[OF True, of self w e st1 w1 ev1] round assms same
      show ?thesis by simp
    next
      case (Inr t)
      with no_tool_use rounds_loop_stop[OF True, of self w t _ st1 w1 ev1] round assms same
      show ?thesis by simp
    qed
  next
    case (tool_error resp' w1' tevs)
    with pre assms(2,3) show ?thesis by simp
  next
    case (final_call resp' w1' w2 tevs fo)
    with pre assms(2,3) show ?thesis by simp
  next
    case (continue resp' w1' tevs)
    with pre assms(2,3) show ?thesis by simp
  qed
qed


lemma single_round_frame:
  assumes "execute_single_round self state w = (out, state', w', evs)"
  shows "base_params state' = base_params state \<and> tools state' = tools state \<and>
         tool_manager state' = tool_manager state"
  using assms
  by (cases rule: single_round_cases) (auto dest: exec_tools_frame)

lemma run_rounds_frame:
  "run_rounds self state w n = Some (st, w', pre) \<Longrightarrow>
     base_params st = base_params state \<and> tools st = tools state \<and>
     tool_manager st = tool_manager state \<and> max_rounds st = max_rounds state \<and>
     round_count st = round_count state + int n"
proof (induction n arbitrary: state w pre)
  case 0
  then show ?case by simp
next
  case (Suc n)
  from Suc.prems obtain t reason st1 w1 ev1 ev2 where
    lt: "round_count state < max_rounds state"
    and round: "execute_single_round self state w = (Inr (t, True, reason), st1, w1, ev1)"
    and rest: "run_rounds self (st1\<lparr>round_count := round_count st1 + 1\<rparr>) w1 n = Some (st, w', ev2)"
    by (auto split: if_splits prod.splits sum.splits option.splits)
  from Suc.IH[OF rest] single_round_frame[OF round] single_round_keeps_counters[OF round]
  show ?case by simp
qed

lemma run_rounds_then_loop:
  "run_rounds self state w n = Some (st, w', pre) \<Longrightarrow>
   rounds_loop self st w' = (out, st2, w2, evs) \<Longrightarrow>
     rounds_loop self state w = (out, st2, w2, pre @ evs)"
proof (induction n arbitrary: state w pre)
  case 0
  then show ?case by simp
next
  case (Suc n)
  from Suc.prems(1) obtain t reason st1 w1 ev1 ev2 where
    lt: "round_count state < max_rounds state"
    and round: "execute_single_round self state w = (Inr (t, True, reason), st1, w1, ev1)"
    and rest: "run_rounds self (st1\<lparr>round_count := round_count st1 + 1\<rparr>) w1 n = Some (st, w', ev2)"
    and pre: "pre = ev1 @ ev2"
    by (auto split: if_splits prod.splits sum.splits option.splits)
  from Suc.IH[OF rest Suc.prems(2)] rounds_loop_continue[OF lt round] pre
  show ?case by simp
qed

text \<open>
  The state every query starts from holds neither \<^verbatim>\<open>tools\<close> nor \<^verbatim>\<open>tool_choice\<close> in its
  base parameters, for a generator built by \<^verbatim>\<open>__init__\<close>.
\<close>

lemma initial_state_base_params:
  "p_tools (base_params (initial_state (init c m) query history tls tm mr)) = None \<and>
   p_tool_choice (base_params (initial_state (init c m) query history tls tm mr)) = None"
  by (simp add: initial_state_def init_def)

text \<open>
  The last allowed round, entered in a state whose base parameters hold no tools.
\<close>

lemma last_round_from_state:
  assumes "round_count state = max_rounds state - 1"
    and "tool_manager state = Some tm"
    and "p_tools (base_params state) = None"
    and "p_tool_choice (base_params state) = None"
    and "client self (round_params state) w = (Inr resp, w1)"
    and "stop_reason resp = ''tool_use''"
    and "execute_tools_and_update_state resp state w1 = (True, state2, w2, tevs)"
    and "client self (final_params state2) w2 = (fo, w3)"
  shows "rounds_loop self state w =
           (case fo of Inl e \<Rightarrow> Inl e | Inr final_response \<Rightarrow> first_text final_response,
            state2, w3,
            LLMCall RoundCall (round_count state) (round_params state) (Inr resp) # tevs @
              [LLMCall RoundFinalCall (round_count state) (final_params state2) fo]) \<and>
         llm_requests tevs = [] \<and>
         p_messages (final_params state2) = Some (messages state2) \<and>
         p_tools (final_params state2) = None \<and>
         p_tool_choice (final_params state2) = None"
proof -
  have lt: "round_count state < max_rounds state"
    using assms(1) by simp
  from tool_exec_keeps_counters[OF assms(7)] assms(1)
  have stop: "should_continue_rounds state2 = (False, Some ''max_rounds_reached'')"
    and rc: "round_count state2 = round_count state"
    by (simp_all add: should_continue_rounds_def)
  have loop: "rounds_loop self state w =
           (case fo of Inl e \<Rightarrow> Inl e | Inr final_response \<Rightarrow> first_text final_response,
            state2, w3,
            LLMCall RoundCall (round_count state) (round_params state) (Inr resp) # tevs @
              [LLMCall RoundFinalCall (round_count state) (final_params state2) fo])"
  proof (cases fo)
    case (Inl e)
    with assms(2,5-8) stop rc
    have "execute_single_round self state w =
            (Inl e, state2, w3,
             LLMCall RoundCall (round_count state) (round_params state) (Inr resp) # tevs @
               [LLMCall RoundFinalCall (round_count state) (final_params state2) fo])"
      by (simp add: execute_single_round_def messages_create_def)
    from rounds_loop_raise[OF lt this] Inl show ?thesis by simp
  next
    case (Inr final_response)
    show ?thesis
    proof (cases "first_text final_response")
      case (Inl e)
      with Inr assms(2,5-8) stop rc
      have "execute_single_round self state w =
              (Inl e, state2, w3,
               LLMCall RoundCall (round_count state) (round_params state) (Inr resp) # tevs @
                 [LLMCall RoundFinalCall (round_count state) (final_params state2) fo])"
        by (simp add: execute_single_round_def messages_create_def)
      from rounds_loop_raise[OF lt this] Inl Inr show ?thesis by simp
    next
      case (Inr t)
      with \<open>fo = Inr final_response\<close> assms(2,5-8) stop rc
      have "execute_single_round self state w =
              (Inr (t, False, Some ''max_rounds_reached''), state2, w3,
               LLMCall RoundCall (round_count state) (round_params state) (Inr resp) # tevs @
                 [LLMCall RoundFinalCall (round_count state) (final_params state2) fo])"
        by (simp add: execute_single_round_def messages_create_def)
      from rounds_loop_stop[OF lt this] Inr \<open>fo = Inr final_response\<close> show ?thesis by simp
    qed
  qed
  from exec_tools_frame[OF assms(7)] assms(3,4)
  have "p_tools (final_params state2) = None" "p_tool_choice (final_params state2) = None"
    "p_messages (final_params state2) = Some (messages state2)"
    by (simp_all add: final_params_def)
  with loop exec_tools_call_sites[OF assms(7)] show ?thesis by simp
qed

section \<open>Concrete runs\<close>

lemmas run_defs =
  generate_response_with_rounds_def initial_state_def init_def gen_def
  rounds_loop.simps execute_single_round_def messages_create_def round_params_def
  final_params_def should_continue_rounds_def execute_tools_and_update_state_def
  first_text_def scripted_client_def echo_tool_def failing_tool_def search_tools_def
  tool_use_response_def text_response_def empty_response_def first_request_def
  round_messages_def two_round_trace_def failure_trace_def system_content_def Let_def

lemma run_two_rounds:
  "generate_response_with_rounds
     (gen [Inr tool_use_response, Inr tool_use_response, Inr (text_response ''final'')])
     ''q'' None (Some search_tools) (Some echo_tool) 2 0
   = (Inr ''final'', 3, two_round_trace)"
  by (simp add: run_defs)

lemma run_tool_failure:
  "generate_response_with_rounds (gen [Inr tool_use_response])
     ''q'' None (Some search_tools) (Some failing_tool) 2 0
   = (Inr ''Tool execution failed'', 1, failure_trace)"
  by (simp add: run_defs)

lemma run_with_history:
  "generate_response_with_rounds (gen [Inr (text_response ''hello'')])
     ''q'' (Some ''User: hi'') (Some search_tools) (Some echo_tool) 2 0
   = (Inr ''hello'', 1,
      [LLMCall RoundCall 0
         (first_request (SYSTEM_PROMPT @ [CHR 0x0A, CHR 0x0A] @ ''Previous conversation:'' @
                           [CHR 0x0A] @ ''User: hi''))
         (Inr (text_response ''hello''))])"
  by (simp add: run_defs)

section \<open>The claims\<close>

text \<open>
  C1. For every \<open>max_rounds \<ge> 1\<close> and every behaviour of the LLM client and of the tool
  dispatcher, \<^verbatim>\<open>generate_response_with_rounds\<close> issues at most \<open>max_rounds + 1\<close> LLM
  requests before it returns (or raises).
\<close>

theorem llm_requests_bounded:
  assumes "1 \<le> mr"
    and "generate_response_with_rounds self query history tls tm mr w = (out, w', evs)"
  shows "int (length (llm_requests evs)) \<le> mr + 1"
proof -
  obtain st' where
    "rounds_loop self (initial_state self query history tls tm mr) w = (out, st', w', evs)"
    using assms(2) by (auto simp: generate_response_with_rounds_def split: prod.splits)
  from rounds_loop_call_bound[OF this] assms(1)
  have "int (length (call_sites evs)) \<le> mr + 1"
    by (simp add: initial_state_def)
  then show ?thesis by (simp add: length_llm_requests)
qed

theorem llm_requests_bounded_witness:
  "(1::int) \<le> 2 \<and> int (length (llm_requests two_round_trace)) \<le> 2 + 1"
  using llm_requests_bounded[OF _ run_two_rounds] by simp

text \<open>
  C2. If the dispatch of a tool call raises while \<^verbatim>\<open>round_count\<close> is \<open>r\<close> (that is, in
  round \<open>k = r + 1\<close>), the failing dispatch is the last thing the query does: the trace ends
  with it, the requests before it are exactly \<open>k\<close> first-of-round requests (so no final
  request without tools was made), and the answer is \<^verbatim>\<open>"Tool execution failed"\<close>.
\<close>

theorem tool_failure_ends_query:
  assumes "generate_response_with_rounds self query history tls tm mr w = (out, w', evs)"
    and "ToolExec r n inp (Inl e) \<in> set evs"
  shows "0 \<le> r \<and> out = Inr ''Tool execution failed'' \<and>
         (\<exists>pre. evs = pre @ [ToolExec r n inp (Inl e)] \<and>
                call_sites pre = replicate (nat (r + 1)) RoundCall)"
proof -
  obtain st' where
    "rounds_loop self (initial_state self query history tls tm mr) w = (out, st', w', evs)"
    using assms(1) by (auto simp: generate_response_with_rounds_def split: prod.splits)
  from rounds_loop_tool_failure[OF this assms(2)] show ?thesis
    by (simp add: initial_state_def)
qed

theorem tool_failure_ends_query_witness:
  "ToolExec 0 ''search_course_content'' [(''query'', ''test'')] (Inl (Exception ''Tool failed''))
     \<in> set failure_trace \<and>
   (\<exists>pre. failure_trace =
            pre @ [ToolExec 0 ''search_course_content'' [(''query'', ''test'')]
                     (Inl (Exception ''Tool failed''))] \<and>
          call_sites pre = replicate (nat (0 + 1)) RoundCall)"
proof -
  have h: "ToolExec 0 ''search_course_content'' [(''query'', ''test'')]
             (Inl (Exception ''Tool failed'')) \<in> set failure_trace"
    by (simp add: failure_trace_def)
  from tool_failure_ends_query[OF run_tool_failure h] h show ?thesis by simp
qed

text \<open>
  C3 (the code departs from the claim). The request of a round is made inside
  \<^verbatim>\<open>try/except\<close>, the final request without tools is not: when the client raises there, the
  exception leaves \<^verbatim>\<open>generate_response\<close>. Here the first two responses request a tool and
  the third request raises.
\<close>

theorem final_call_exception_escapes:
  "generate_response
     (gen [Inr tool_use_response, Inr tool_use_response, Inl (Exception ''overloaded'')])
     ''q'' None (Some search_tools) (Some echo_tool) 0
   = (Inl (Exception ''overloaded''), 3,
      butlast two_round_trace @
        [LLMCall RoundFinalCall 1
           ((first_request SYSTEM_PROMPT)
              \<lparr>p_messages := Some (\<lparr>role = ''user'', msg_content = Text ''q''\<rparr> #
                                     round_messages @ round_messages),
               p_tools := None, p_tool_choice := None\<rparr>)
           (Inl (Exception ''overloaded''))])"
  by (simp add: generate_response_def run_defs)

text \<open>
  C4 (amended). Let the loop of a query arrive at a round with
  \<^verbatim>\<open>round_count == max_rounds - 1\<close>, let the response of that round request tool use and
  let all its tool calls succeed. Then the query makes exactly one more request and ends.
  The request carries the message log as the round left it and neither \<^verbatim>\<open>tools\<close> nor
  \<^verbatim>\<open>tool_choice\<close>. When it is answered by a response whose content begins with a text
  block, that text is the answer of the query.
\<close>

theorem last_round_final_call:
  assumes "run_rounds (init c m) (initial_state (init c m) query history tls (Some tm) mr) w0 n
             = Some (state, w, pre)"
    and "round_count state = max_rounds state - 1"
    and "c (round_params state) w = (Inr resp, w1)"
    and "stop_reason resp = ''tool_use''"
    and "execute_tools_and_update_state resp state w1 = (True, state2, w2, tevs)"
    and "c (final_params state2) w2 = (fo, w3)"
  shows "snd (generate_response_with_rounds (init c m) query history tls (Some tm) mr w0) =
           (w3,
            pre @ LLMCall RoundCall (round_count state) (round_params state) (Inr resp) # tevs @
              [LLMCall RoundFinalCall (round_count state) (final_params state2) fo]) \<and>
         llm_requests tevs = [] \<and>
         p_messages (final_params state2) = Some (messages state2) \<and>
         p_tools (final_params state2) = None \<and>
         p_tool_choice (final_params state2) = None \<and>
         (\<forall>final_response t bs.
            fo = Inr final_response \<longrightarrow> content final_response = TextBlock t # bs \<longrightarrow>
            fst (generate_response_with_rounds (init c m) query history tls (Some tm) mr w0)
              = Inr t)"
proof -
  let ?s0 = "initial_state (init c m) query history tls (Some tm) mr"
  let ?evs = "LLMCall RoundCall (round_count state) (round_params state) (Inr resp) # tevs @
                [LLMCall RoundFinalCall (round_count state) (final_params state2) fo]"
  let ?out = "case fo of Inl e \<Rightarrow> Inl e | Inr final_response \<Rightarrow> first_text final_response"
  from run_rounds_frame[OF assms(1)] initial_state_base_params[of c m query history tls "Some tm" mr]
  have tm: "tool_manager state = Some tm"
    and nt: "p_tools (base_params state) = None" "p_tool_choice (base_params state) = None"
    by (simp_all add: initial_state_def)
  have cl: "client (init c m) = c"
    by (simp add: init_def)
  from last_round_from_state[OF assms(2) tm nt, of "init c m" w resp w1 state2 w2 tevs fo w3]
    assms(3-6) cl
  have loop: "rounds_loop (init c m) state w = (?out, state2, w3, ?evs)"
    and rest: "llm_requests tevs = []"
      "p_messages (final_params state2) = Some (messages state2)"
      "p_tools (final_params state2) = None" "p_tool_choice (final_params state2) = None"
    by simp_all
  from run_rounds_then_loop[OF assms(1) loop]
  have run: "generate_response_with_rounds (init c m) query history tls (Some tm) mr w0 =
               (?out, w3, pre @ ?evs)"
    by (simp add: generate_response_with_rounds_def)
  have "fst (generate_response_with_rounds (init c m) query history tls (Some tm) mr w0) = Inr t"
    if "fo = Inr final_response" "content final_response = TextBlock t # bs"
    for final_response t bs
    using run that by (simp add: first_text_def)
  with run rest show ?thesis by simp
qed

theorem last_round_final_call_witness:
  "fst (generate_response_with_rounds
          (init (scripted_client
                   [Inr tool_use_response, Inr tool_use_response, Inr (text_response ''final'')])
             ''m'')
          ''q'' None (Some search_tools) (Some echo_tool) 2 0) = Inr ''final'' \<and>
   snd (generate_response_with_rounds
          (init (scripted_client
                   [Inr tool_use_response, Inr tool_use_response, Inr (text_response ''final'')])
             ''m'')
          ''q'' None (Some search_tools) (Some echo_tool) 2 0) = (3, two_round_trace)"
proof -
  let ?c = "scripted_client
              [Inr tool_use_response, Inr tool_use_response, Inr (text_response ''final'')]"
  let ?s0 = "initial_state (init ?c ''m'') ''q'' None (Some search_tools) (Some echo_tool) 2"
  let ?s1 = "?s0\<lparr>messages := \<lparr>role = ''user'', msg_content = Text ''q''\<rparr> # round_messages,
                  round_count := 1\<rparr>"
  let ?s2 = "?s1\<lparr>messages := \<lparr>role = ''user'', msg_content = Text ''q''\<rparr> #
                                  round_messages @ round_messages\<rparr>"
  have h1: "run_rounds (init ?c ''m'') ?s0 0 (Suc 0) =
              Some (?s1, 1,
                [LLMCall RoundCall 0 (first_request SYSTEM_PROMPT) (Inr tool_use_response),
                 ToolExec 0 ''search_course_content'' [(''query'', ''test'')]
                   (Inr ''result of search_course_content'')])"
    by (simp add: run_defs)
  have h2: "round_count ?s1 = max_rounds ?s1 - 1"
    by (simp add: initial_state_def)
  have h3: "?c (round_params ?s1) 1 = (Inr tool_use_response, 2)"
    and h4: "stop_reason tool_use_response = ''tool_use''"
    by (simp_all add: run_defs)
  have h5: "execute_tools_and_update_state tool_use_response ?s1 2 =
              (True, ?s2, 2,
               [ToolExec 1 ''search_course_content'' [(''query'', ''test'')]
                  (Inr ''result of search_course_content'')])"
    by (simp add: run_defs)
  have h6: "?c (final_params ?s2) 2 = (Inr (text_response ''final''), 3)"
    by (simp add: run_defs)
  have h7: "content (text_response ''final'') = TextBlock ''final'' # []"
    by (simp add: text_response_def)
  from last_round_final_call[OF h1 h2 h3 h4 h5 h6] h7 show ?thesis
    by (simp add: run_defs)
qed

text \<open>
  The claim as stated promises the text of the final response whatever that response is.
  When the final response has no content block, \<^verbatim>\<open>content[0]\<close> raises and no text is
  returned.
\<close>

theorem final_response_without_text_counterexample:
  "generate_response_with_rounds (gen [Inr tool_use_response, Inr empty_response])
     ''q'' None (Some search_tools) (Some echo_tool) 1 0
   = (Inl (IndexError ''list index out of range''), 2,
      [LLMCall RoundCall 0 (first_request SYSTEM_PROMPT) (Inr tool_use_response),
       ToolExec 0 ''search_course_content'' [(''query'', ''test'')]
         (Inr ''result of search_course_content''),
       LLMCall RoundFinalCall 0
         ((first_request SYSTEM_PROMPT)
            \<lparr>p_messages := Some (\<lparr>role = ''user'', msg_content = Text ''q''\<rparr> # round_messages),
             p_tools := None, p_tool_choice := None\<rparr>)
         (Inr empty_response)])"
  by (simp add: run_defs)

text \<open>
  C5 (amended). If the response to the first request of a query does not stop for tool
  use, that request is the only thing the query does: one LLM call, no dispatch. When the
  content of the response begins with a text block, that text is the answer. (The first
  request is the one of the first round; for \<open>max_rounds \<le> 0\<close> it is the one after the
  loop.)
\<close>

theorem no_tool_use_single_call:
  assumes "client self
             (if 0 < mr then round_params (initial_state self query history tls tm mr)
              else final_params (initial_state self query history tls tm mr)) w
           = (Inr resp, w1)"
    and "stop_reason resp \<noteq> ''tool_use''"
  shows "snd (generate_response_with_rounds self query history tls tm mr w) =
           (w1,
            [LLMCall (if 0 < mr then RoundCall else FallbackCall) 0
               (if 0 < mr then round_params (initial_state self query history tls tm mr)
                else final_params (initial_state self query history tls tm mr))
               (Inr resp)]) \<and>
         fst (generate_response_with_rounds self query history tls tm mr w) = first_text resp \<and>
         (\<forall>t bs. content resp = TextBlock t # bs \<longrightarrow>
            fst (generate_response_with_rounds self query history tls tm mr w) = Inr t)"
proof -
  let ?s0 = "initial_state self query history tls tm mr"
  have rc: "round_count ?s0 = 0" and mx: "max_rounds ?s0 = mr"
    by (simp_all add: initial_state_def)
  have run: "generate_response_with_rounds self query history tls tm mr w =
          (first_text resp, w1,
           [LLMCall (if 0 < mr then RoundCall else FallbackCall) 0
              (if 0 < mr then round_params ?s0 else final_params ?s0) (Inr resp)])"
  proof (cases "0 < mr")
    case True
    then have lt: "round_count ?s0 < max_rounds ?s0"
      using rc mx by simp
    from True assms have c: "client self (round_params ?s0) w = (Inr resp, w1)"
      by simp
    show ?thesis
    proof (cases "first_text resp")
      case (Inl e)
      with c assms(2) rc
      have "execute_single_round self ?s0 w =
              (Inl e, ?s0, w1, [LLMCall RoundCall 0 (round_params ?s0) (Inr resp)])"
        by (simp add: execute_single_round_def messages_create_def)
      from rounds_loop_raise[OF lt this] Inl True show ?thesis
        by (simp add: generate_response_with_rounds_def)
    next
      case (Inr t)
      with c assms(2) rc
      have "execute_single_round self ?s0 w =
              (Inr (t, False, Some ''no_tool_use''), ?s0, w1,
               [LLMCall RoundCall 0 (round_params ?s0) (Inr resp)])"
        by (simp add: execute_single_round_def messages_create_def)
      from rounds_loop_stop[OF lt this] Inr True show ?thesis
        by (simp add: generate_response_with_rounds_def)
    qed
  next
    case False
    then have ge: "\<not> round_count ?s0 < max_rounds ?s0"
      using rc mx by simp
    from False assms have c: "client self (final_params ?s0) w = (Inr resp, w1)"
      by simp
    from rounds_loop_fallback[OF ge, of self w] c rc False show ?thesis
      by (simp add: generate_response_with_rounds_def messages_create_def)
  qed
  then show ?thesis
    by (simp add: first_text_def)
qed

theorem no_tool_use_single_call_witness:
  "fst (generate_response_with_rounds (gen [Inr (text_response ''hello'')])
          ''q'' (Some ''User: hi'') (Some search_tools) (Some echo_tool) 2 0) = Inr ''hello'' \<and>
   snd (generate_response_with_rounds (gen [Inr (text_response ''hello'')])
          ''q'' (Some ''User: hi'') (Some search_tools) (Some echo_tool) 2 0) =
     (1, [LLMCall RoundCall 0
            (first_request (SYSTEM_PROMPT @ [CHR 0x0A, CHR 0x0A] @ ''Previous conversation:'' @
                              [CHR 0x0A] @ ''User: hi''))
            (Inr (text_response ''hello''))])"
proof -
  let ?g = "gen [Inr (text_response ''hello'')]"
  let ?s0 = "initial_state ?g ''q'' (Some ''User: hi'') (Some search_tools) (Some echo_tool) 2"
  have h1: "client ?g (if 0 < (2::int) then round_params ?s0 else final_params ?s0) 0 =
              (Inr (text_response ''hello''), 1)"
    by (simp add: run_defs)
  have h2: "stop_reason (text_response ''hello'') \<noteq> ''tool_use''"
    by (simp add: text_response_def)
  have h3: "content (text_response ''hello'') = TextBlock ''hello'' # []"
    by (simp add: text_response_def)
  from no_tool_use_single_call[OF h1 h2] h3 show ?thesis
    by (simp add: run_defs)
qed

text \<open>
  The claim as stated promises the text of the first response whatever that response is.
  When a response that ends the turn has no content block, \<^verbatim>\<open>content[0]\<close> raises: one LLM
  call, no dispatch, and no text returned.
\<close>

theorem first_response_without_text_counterexample:
  "generate_response_with_rounds (gen [Inr empty_response])
     ''q'' None (Some search_tools) (Some echo_tool) 2 0
   = (Inl (IndexError ''list index out of range''), 1,
      [LLMCall RoundCall 0 (first_request SYSTEM_PROMPT) (Inr empty_response)])"
  by (simp add: run_defs)



text \<open>
  C7 (the code departs from the claim). The exception handler appends the error block to
  the local list \<^verbatim>\<open>tool_results\<close> and returns at once, so the list never reaches
  \<^verbatim>\<open>state.messages\<close>: after a failing dispatch the log holds the assistant message only.
  The first equation shows the local list at the failing input, the second the state the
  function leaves behind.
\<close>

theorem error_block_never_logged:
  "tool_loop (Some failing_tool) 0 (content tool_use_response) [] 1 =
     (False,
      [\<lparr>tool_use_id = ''tool_1'', result_content = ''Tool execution failed: Tool failed'',
        is_error = Some True\<rparr>],
      1,
      [ToolExec 0 ''search_course_content'' [(''query'', ''test'')] (Inl (Exception ''Tool failed''))])
   \<and>
   execute_tools_and_update_state tool_use_response
     (initial_state (gen []) ''q'' None (Some search_tools) (Some failing_tool) 2) 1 =
     (False,
      (initial_state (gen []) ''q'' None (Some search_tools) (Some failing_tool) 2)
        \<lparr>messages :=
           [\<lparr>role = ''user'', msg_content = Text ''q''\<rparr>,
            \<lparr>role = ''assistant'', msg_content = Blocks (content tool_use_response)\<rparr>]\<rparr>,
      1,
      [ToolExec 0 ''search_course_content'' [(''query'', ''test'')] (Inl (Exception ''Tool failed''))])"
  by (simp add: run_defs)

text \<open>
  C8. Every LLM request of a query carries the same system prompt: the fixed instruction
  block when no history text is supplied (\<^verbatim>\<open>None\<close> or the empty string, both falsy), and
  otherwise the block followed by a blank line, the line \<^verbatim>\<open>Previous conversation:\<close> and the
  history.
\<close>

theorem system_prompt_per_query:
  assumes "generate_response_with_rounds self query history tls tm mr w = (out, w', evs)"
  shows "\<forall>p \<in> set (llm_requests evs).
           system p = Some
             (case history of
                None \<Rightarrow> SYSTEM_PROMPT
              | Some h \<Rightarrow>
                  if h = [] then SYSTEM_PROMPT
                  else SYSTEM_PROMPT @ [CHR 0x0A, CHR 0x0A] @ ''Previous conversation:'' @
                         [CHR 0x0A] @ h)"
proof -
  obtain st' where
    "rounds_loop self (initial_state self query history tls tm mr) w = (out, st', w', evs)"
    using assms by (auto simp: generate_response_with_rounds_def split: prod.splits)
  from rounds_loop_system[OF this] show ?thesis
    by (auto simp: initial_state_def system_content_def split: option.splits)
qed

theorem system_prompt_per_query_witness:
  "map system
     (llm_requests (snd (snd (generate_response_with_rounds (gen [Inr (text_response ''hello'')])
        ''q'' (Some ''User: hi'') (Some search_tools) (Some echo_tool) 2 0))))
   = [Some (SYSTEM_PROMPT @ [CHR 0x0A, CHR 0x0A] @ ''Previous conversation:'' @
              [CHR 0x0A] @ ''User: hi'')]"
  using system_prompt_per_query[OF run_with_history]
  by (simp add: run_with_history)

text \<open>
  C9. \<^verbatim>\<open>generate_response\<close> is \<^verbatim>\<open>generate_response_with_rounds\<close> with
  \<^verbatim>\<open>max_rounds=2\<close>: same answer, same trace of requests and dispatches, same effect on the
  collaborators, for every client and dispatcher.
\<close>

theorem generate_response_is_two_rounds:
  "generate_response self query history tls tm w =
     generate_response_with_rounds self query history tls tm 2 w"
  by (simp add: generate_response_def)

theorem generate_response_is_two_rounds_witness:
  "generate_response
     (gen [Inr tool_use_response, Inr tool_use_response, Inr (text_response ''final'')])
     ''q'' None (Some search_tools) (Some echo_tool) 0
   = (Inr ''final'', 3, two_round_trace)"
  using generate_response_is_two_rounds
    [of "gen [Inr tool_use_response, Inr tool_use_response, Inr (text_response ''final'')]"
        "''q''" None "Some search_tools" "Some echo_tool" 0]
  by (simp add: run_two_rounds)

text \<open>
  C10 (amended). For \<open>max_rounds \<ge> 1\<close> the request after the \<^verbatim>\<open>while\<close> loop is
  unreachable: no event of the trace comes from that call site, and \<^verbatim>\<open>round_count\<close> is
  still below \<^verbatim>\<open>max_rounds\<close> when the loop is left, so the loop is only ever left from
  inside its body and a query that returns an answer returns it from there. The reason is
  that \<^verbatim>\<open>_should_continue_rounds\<close> answers \<open>False\<close> whenever
  \<^verbatim>\<open>round_count >= max_rounds - 1\<close>.
\<close>

theorem fallback_call_unreachable:
  assumes "1 \<le> mr"
    and "rounds_loop self (initial_state self query history tls tm mr) w = (out, st', w', evs)"
  shows "generate_response_with_rounds self query history tls tm mr w = (out, w', evs) \<and>
         FallbackCall \<notin> set (call_sites evs) \<and> round_count st' < mr \<and>
         (\<forall>s :: 'w ConversationState.
            round_count s \<ge> max_rounds s - 1 \<longrightarrow> \<not> fst (should_continue_rounds s))"
proof -
  have "round_count (initial_state self query history tls tm mr)
          < max_rounds (initial_state self query history tls tm mr)"
    using assms(1) by (simp add: initial_state_def)
  from rounds_loop_no_fallback[OF this assms(2)]
  have "FallbackCall \<notin> set (call_sites evs)" "round_count st' < mr"
    by (simp_all add: initial_state_def)
  moreover have "generate_response_with_rounds self query history tls tm mr w = (out, w', evs)"
    using assms(2) by (simp add: generate_response_with_rounds_def)
  ultimately show ?thesis
    by (simp add: should_continue_rounds_def)
qed

theorem fallback_call_unreachable_witness:
  "(1::int) \<le> 2 \<and>
   FallbackCall \<notin> set (call_sites two_round_trace) \<and>
   call_sites two_round_trace = [RoundCall, RoundCall, RoundFinalCall]"
proof -
  let ?g = "gen [Inr tool_use_response, Inr tool_use_response, Inr (text_response ''final'')]"
  obtain st' where
    h: "rounds_loop ?g (initial_state ?g ''q'' None (Some search_tools) (Some echo_tool) 2) 0 =
          (Inr ''final'', st', 3, two_round_trace)"
    using run_two_rounds
    by (auto simp: generate_response_with_rounds_def split: prod.splits)
  have one: "(1::int) \<le> 2" by simp
  from fallback_call_unreachable[OF one h] show ?thesis
    by (simp add: two_round_trace_def)
qed

text \<open>
  The claim as stated says the loop is always left by a \<^verbatim>\<open>return\<close>. It can also be left by
  an exception from inside its body: \<^verbatim>\<open>content[0]\<close> of a response without content
  blocks, or the final request of the last round raising.
\<close>

theorem loop_left_by_exception_counterexample:
  "generate_response_with_rounds (gen [Inr empty_response])
     ''q'' None (Some search_tools) (Some echo_tool) 1 0
   = (Inl (IndexError ''list index out of range''), 1,
      [LLMCall RoundCall 0 (first_request SYSTEM_PROMPT) (Inr empty_response)]) \<and>
   generate_response_with_rounds (gen [Inr tool_use_response, Inl (Exception ''overloaded'')])
     ''q'' None (Some search_tools) (Some echo_tool) 1 0
   = (Inl (Exception ''overloaded''), 2,
      [LLMCall RoundCall 0 (first_request SYSTEM_PROMPT) (Inr tool_use_response),
       ToolExec 0 ''search_course_content'' [(''query'', ''test'')]
         (Inr ''result of search_course_content''),
       LLMCall RoundFinalCall 0
         ((first_request SYSTEM_PROMPT)
            \<lparr>p_messages := Some (\<lparr>role = ''user'', msg_content = Text ''q''\<rparr> # round_messages),
             p_tools := None, p_tool_choice := None\<rparr>)
         (Inl (Exception ''overloaded''))])"
  by (simp add: run_defs)

end
